theory Spec2Isabelle
  imports Complex_Main "HOL-Library.Sublist"
begin

section \<open>Python values and failures\<close>

text \<open>
  The bot is a Python program. Every exception the modelled code can raise is a value of
  \<open>error\<close>; a computation that may raise returns \<open>error + 'a\<close> with \<open>Inl\<close> for the
  exception. A Python \<open>dict\<close> is an association list read with \<open>map_of\<close>: the keys of a
  dict are distinct and are iterated in insertion order.
\<close>

datatype error = KeyError | IndexError | ValueError | TypeError | AttributeError

definition lookup :: "('k \<times> 'v) list \<Rightarrow> 'k \<Rightarrow> error + 'v" where
  \<comment> \<open>\<open>d[k]\<close>\<close>
  "lookup d k = (case map_of d k of None \<Rightarrow> Inl KeyError | Some v \<Rightarrow> Inr v)"

definition keys :: "('k \<times> 'v) list \<Rightarrow> 'k list" where
  \<comment> \<open>\<open>for k in d\<close>\<close>
  "keys d = map fst d"

section \<open>The type chart and the acceptability of a team (commands.py)\<close>

text \<open>
  \<open>data/types.py\<close> and \<open>data/pokedex.py\<close> are not part of the sources at hand, so the
  chart \<open>Types\<close> and the catalog \<open>Pokedex\<close> are parameters. \<open>Types[d][m]\<close> is the multiplier
  of an attack of type \<open>m\<close> on a defender of type \<open>d\<close>; \<open>Pokedex[p]['types']\<close> is the list
  of the types of species \<open>p\<close>. The multipliers of the game are 0, 1/2, 1 and 2, whose
  products are exact in binary floating point, so they are rationals here.
\<close>

type_synonym typechart = "(string \<times> (string \<times> rat) list) list"
type_synonym pokedex = "(string \<times> string list) list"

text \<open>\<open>comp\<close>: for each attacking type the pair of counters \<open>(weak, res)\<close>.\<close>

type_synonym counters = "string \<rightharpoonup> nat \<times> nat"

definition init_comp :: "typechart \<Rightarrow> counters" where
  \<comment> \<open>\<open>{t:{'weak':0,'res':0} for t in Types}\<close>\<close>
  "init_comp Types = map_of (map (\<lambda>t. (t, (0, 0))) (keys Types))"

definition add_weak :: "counters \<Rightarrow> string \<Rightarrow> error + counters" where
  \<comment> \<open>\<open>comp[matchup]['weak'] += 1\<close>\<close>
  "add_weak comp0 m =
     (case comp0 m of None \<Rightarrow> Inl KeyError | Some (w, r) \<Rightarrow> Inr (comp0(m \<mapsto> (Suc w, r))))"

definition add_res :: "counters \<Rightarrow> string \<Rightarrow> error + counters" where
  \<comment> \<open>\<open>comp[matchup]['res'] += 1\<close>\<close>
  "add_res comp0 m =
     (case comp0 m of None \<Rightarrow> Inl KeyError | Some (w, r) \<Rightarrow> Inr (comp0(m \<mapsto> (w, Suc r))))"

definition entry :: "typechart \<Rightarrow> string \<Rightarrow> string \<Rightarrow> error + rat" where
  \<comment> \<open>\<open>Types[ty][matchup]\<close>\<close>
  "entry Types ty matchup =
     (case lookup Types ty of Inl e \<Rightarrow> Inl e | Inr row \<Rightarrow> lookup row matchup)"

definition poke_eff :: "typechart \<Rightarrow> string list \<Rightarrow> string \<Rightarrow> error + rat" where
  \<comment> \<open>the number compared with 1 in the body of either \<open>for matchup in Types\<close> loop:
      the product of two entries when \<open>len(types) > 1\<close>, the entry of \<open>types[0]\<close> otherwise\<close>
  "poke_eff Types types matchup =
     (if length types > 1 then
        (case entry Types (types ! 0) matchup of Inl e \<Rightarrow> Inl e
         | Inr a \<Rightarrow> (case entry Types (types ! 1) matchup of Inl e \<Rightarrow> Inl e
                     | Inr b \<Rightarrow> Inr (a * b)))
      else (case types of [] \<Rightarrow> Inl IndexError | t0 # _ \<Rightarrow> entry Types t0 matchup))"

fun tally :: "(string \<Rightarrow> error + rat) \<Rightarrow> string list \<Rightarrow> counters \<Rightarrow> error + counters" where
  \<comment> \<open>\<open>for matchup in Types: if eff > 1: weak += 1 elif eff < 1: res += 1\<close>\<close>
  "tally eff [] comp0 = Inr comp0"
| "tally eff (matchup # rest) comp0 =
     (case eff matchup of Inl e \<Rightarrow> Inl e
      | Inr x \<Rightarrow>
          if x > 1 then
            (case add_weak comp0 matchup of Inl e \<Rightarrow> Inl e | Inr c \<Rightarrow> tally eff rest c)
          else if x < 1 then
            (case add_res comp0 matchup of Inl e \<Rightarrow> Inl e | Inr c \<Rightarrow> tally eff rest c)
          else tally eff rest comp0)"

fun count_team :: "typechart \<Rightarrow> pokedex \<Rightarrow> string list \<Rightarrow> counters \<Rightarrow> error + counters" where
  \<comment> \<open>\<open>for poke in team: types = Pokedex[poke]['types']; ...\<close>\<close>
  "count_team Types Pokedex [] comp0 = Inr comp0"
| "count_team Types Pokedex (poke # team) comp0 =
     (case lookup Pokedex poke of Inl e \<Rightarrow> Inl e
      | Inr types \<Rightarrow>
          (case tally (poke_eff Types types) (keys Types) comp0 of Inl e \<Rightarrow> Inl e
           | Inr c \<Rightarrow> count_team Types Pokedex team c))"

fun verdict :: "counters \<Rightarrow> string list \<Rightarrow> error + bool" where
  \<comment> \<open>\<open>for t in comp: ... return False\<close>, then \<open>return True\<close>\<close>
  "verdict comp0 [] = Inr True"
| "verdict comp0 (t # ts) =
     (case comp0 t of None \<Rightarrow> Inl KeyError
      | Some (w, r) \<Rightarrow>
          if w \<ge> 3 then Inr False
          else if w \<ge> 2 \<and> r \<le> 1 then Inr False
          else verdict comp0 ts)"

definition acceptableWeakness :: "typechart \<Rightarrow> pokedex \<Rightarrow> string list \<Rightarrow> error + bool" where
  \<comment> \<open>the team is a Python set; the list gives its members in iteration order\<close>
  "acceptableWeakness Types Pokedex team =
     (if team = [] then Inr False
      else (case count_team Types Pokedex team (init_comp Types) of Inl e \<Rightarrow> Inl e
            | Inr comp0 \<Rightarrow> verdict comp0 (keys Types)))"

subsection \<open>The predicate in the words of the specification\<close>

definition multiplier :: "typechart \<Rightarrow> string \<Rightarrow> string \<Rightarrow> rat" where
  "multiplier Types ty t = the (map_of (the (map_of Types ty)) t)"

definition effectiveness :: "typechart \<Rightarrow> pokedex \<Rightarrow> string \<Rightarrow> string \<Rightarrow> rat" where
  \<comment> \<open>the product of the multipliers of the member's types versus attacking type \<open>t\<close>\<close>
  "effectiveness Types Pokedex poke t =
     prod_list (map (\<lambda>ty. multiplier Types ty t) (the (map_of Pokedex poke)))"

definition weak_count :: "typechart \<Rightarrow> pokedex \<Rightarrow> string list \<Rightarrow> string \<Rightarrow> nat" where
  "weak_count Types Pokedex team t =
     length (filter (\<lambda>p. effectiveness Types Pokedex p t > 1) team)"

definition resistant_count :: "typechart \<Rightarrow> pokedex \<Rightarrow> string list \<Rightarrow> string \<Rightarrow> nat" where
  "resistant_count Types Pokedex team t =
     length (filter (\<lambda>p. effectiveness Types Pokedex p t < 1) team)"

definition acceptable :: "typechart \<Rightarrow> pokedex \<Rightarrow> string list \<Rightarrow> bool" where
  "acceptable Types Pokedex team \<longleftrightarrow>
     team \<noteq> [] \<and>
     (\<forall>t \<in> set (keys Types).
        weak_count Types Pokedex team t < 3 \<and>
        \<not> (weak_count Types Pokedex team t \<ge> 2 \<and> resistant_count Types Pokedex team t \<le> 1))"

text \<open>
  The catalog invariants of the data model: every member of the team has a catalog entry
  of one or two types, every such type has a row in the chart, and every row gives a
  multiplier for every attacking type.
\<close>

definition row_ok :: "typechart \<Rightarrow> string \<Rightarrow> bool" where
  "row_ok Types ty =
     (case map_of Types ty of None \<Rightarrow> False
      | Some row \<Rightarrow> list_all (\<lambda>t. map_of row t \<noteq> None) (keys Types))"

definition species_ok :: "typechart \<Rightarrow> pokedex \<Rightarrow> string \<Rightarrow> bool" where
  "species_ok Types Pokedex p =
     (case map_of Pokedex p of None \<Rightarrow> False
      | Some types \<Rightarrow> (length types = 1 \<or> length types = 2) \<and> list_all (row_ok Types) types)"

definition catalog_ok :: "typechart \<Rightarrow> pokedex \<Rightarrow> string list \<Rightarrow> bool" where
  "catalog_ok Types Pokedex team \<longleftrightarrow>
     distinct (keys Types) \<and> list_all (species_ok Types Pokedex) team"

section \<open>The team builder (commands.py, the \<open>[tier]team\<close> command)\<close>

definition has_sub :: "string \<Rightarrow> string \<Rightarrow> bool" where
  \<comment> \<open>\<open>sub in s\<close> on strings\<close>
  "has_sub sub s = sublist sub s"

definition getindex :: "'a list \<Rightarrow> int \<Rightarrow> error + 'a" where
  \<comment> \<open>\<open>xs[i]\<close>: a negative index counts from the end, an index out of range raises\<close>
  "getindex xs i =
     (if 0 \<le> i \<and> i < int (length xs) then Inr (xs ! nat i)
      else if i < 0 \<and> - int (length xs) \<le> i then Inr (xs ! nat (int (length xs) + i))
      else Inl IndexError)"

text \<open>
  The random source is an oracle: \<open>randint lo hi r\<close> is the result of \<open>randint(lo, hi)\<close>
  when the source draws \<open>r\<close>. Both bounds are included, as in Python, every number of
  the range is the result of some draw, and an empty range raises \<open>ValueError\<close>.
\<close>

definition randint :: "int \<Rightarrow> int \<Rightarrow> nat \<Rightarrow> error + int" where
  "randint lo hi r = (if hi < lo then Inl ValueError else Inr (lo + int r mod (hi - lo + 1)))"

definition form_match :: "string \<Rightarrow> nat" where
  \<comment> \<open>the length of the match of \<open>-(?:Mega(?:-(X|Y))?|Primal)\<close> at the head of the string,
      0 when there is none\<close>
  "form_match s =
     (if prefix ''-Mega-X'' s \<or> prefix ''-Mega-Y'' s then 7
      else if prefix ''-Mega'' s then 5
      else if prefix ''-Primal'' s then 7
      else 0)"

fun sub_forms :: "nat \<Rightarrow> string \<Rightarrow> string" where
  \<comment> \<open>\<open>re.sub(pattern, '', s)\<close>: every match is deleted, scanning from the left; the
      first argument counts the characters of the current match still to be deleted\<close>
  "sub_forms k [] = []"
| "sub_forms (Suc k) (c # cs) = sub_forms k cs"
| "sub_forms 0 (c # cs) =
     (case form_match (c # cs) of 0 \<Rightarrow> c # sub_forms 0 cs | Suc k \<Rightarrow> sub_forms k cs)"

definition base_species :: "string \<Rightarrow> string" where
  \<comment> \<open>\<open>re.sub('-(?:Mega(?:-(X|Y))?|Primal)','', poke)\<close>\<close>
  "base_species poke = sub_forms 0 poke"

definition pick :: "string list \<Rightarrow> nat \<Rightarrow> error + string" where
  \<comment> \<open>\<open>list(tiers[...])[randint(0,len(tiers[...])-1)]\<close>\<close>
  "pick pool r =
     (case randint 0 (int (length pool) - 1) r of Inl e \<Rightarrow> Inl e | Inr i \<Rightarrow> getindex pool i)"

definition loop_cond :: "typechart \<Rightarrow> pokedex \<Rightarrow> string list \<Rightarrow> error + bool" where
  \<comment> \<open>\<open>len(team) < 6 or not acceptableWeakness(team)\<close>\<close>
  "loop_cond Types Pokedex team =
     (if length team < 6 then Inr True
      else (case acceptableWeakness Types Pokedex team of Inl e \<Rightarrow> Inl e | Inr b \<Rightarrow> Inr (\<not> b)))"

definition try_add :: "typechart \<Rightarrow> pokedex \<Rightarrow> string \<Rightarrow> string list \<Rightarrow> error + string list" where
  \<comment> \<open>\<open>team |= {poke}; if not acceptableWeakness(team): team -= {poke}\<close>\<close>
  "try_add Types Pokedex poke team =
     (let team' = List.insert poke team
      in case acceptableWeakness Types Pokedex team' of Inl e \<Rightarrow> Inl e
         | Inr b \<Rightarrow> Inr (if b then team' else removeAll poke team'))"

text \<open>
  The team is a Python set: a list without repetition, grown with \<open>List.insert\<close> and
  shrunk with \<open>removeAll\<close>, so that \<open>len(team)\<close> is its length. The loops may run
  forever, so they take fuel, one unit for each test of a loop condition; \<open>None\<close> is a run
  that has not returned when the fuel is spent. \<open>rnd\<close> is the sequence of draws of the
  random source and \<open>i\<close> the number of draws made so far.
\<close>

datatype path = Direct | Filled

fun fill :: "nat \<Rightarrow> string list \<Rightarrow> (nat \<Rightarrow> nat) \<Rightarrow> nat \<Rightarrow> string list \<Rightarrow> (error + string list) option" where
  \<comment> \<open>\<open>while len(team) < 6: team |= {list(tiers[...])[randint(...)]}\<close>\<close>
  "fill 0 pool rnd i team = None"
| "fill (Suc fuel) pool rnd i team =
     (if length team < 6 then
        (case pick pool (rnd i) of Inl e \<Rightarrow> Some (Inl e)
         | Inr poke \<Rightarrow> fill fuel pool rnd (Suc i) (List.insert poke team))
      else Some (Inr team))"

fun build :: "nat \<Rightarrow> typechart \<Rightarrow> pokedex \<Rightarrow> string list \<Rightarrow> (nat \<Rightarrow> nat) \<Rightarrow> nat \<Rightarrow>
    string list \<Rightarrow> nat \<Rightarrow> (error + path \<times> string list) option" where
  \<comment> \<open>the \<open>while\<close> loop of the command; the result says whether the team was completed by
      the loop itself (\<open>Direct\<close>) or by the fill after 100 attempts (\<open>Filled\<close>)\<close>
  "build 0 Types Pokedex pool rnd i team attempts = None"
| "build (Suc fuel) Types Pokedex pool rnd i team attempts =
     (case loop_cond Types Pokedex team of Inl e \<Rightarrow> Some (Inl e)
      | Inr go \<Rightarrow>
          if \<not> go then Some (Inr (Direct, team))
          else
            (case pick pool (rnd i) of Inl e \<Rightarrow> Some (Inl e)
             | Inr poke \<Rightarrow>
                 if base_species poke \<in> set team then
                   build fuel Types Pokedex pool rnd (Suc i) team attempts
                 else if filter (has_sub ''-Mega'') team \<noteq> [] \<and> has_sub ''-Mega'' poke then
                   build fuel Types Pokedex pool rnd (Suc i) team attempts
                 else
                   (case try_add Types Pokedex poke team of Inl e \<Rightarrow> Some (Inl e)
                    | Inr team' \<Rightarrow>
                        if length team' \<ge> 6 then Some (Inr (Direct, team'))
                        else if Suc attempts \<ge> 100 then
                          (case fill fuel pool rnd (Suc i) team' of None \<Rightarrow> None
                           | Some (Inl e) \<Rightarrow> Some (Inl e)
                           | Some (Inr t) \<Rightarrow> Some (Inr (Filled, t)))
                        else build fuel Types Pokedex pool rnd (Suc i) team' (Suc attempts))))"

definition team_command :: "nat \<Rightarrow> typechart \<Rightarrow> pokedex \<Rightarrow> string list \<Rightarrow> (nat \<Rightarrow> nat) \<Rightarrow>
    (error + path \<times> string list) option" where
  \<comment> \<open>\<open>team = set(); attempts = 0; while ...\<close>; the command replies with the members of
      the team joined by \<open>' / '\<close>\<close>
  "team_command fuel Types Pokedex pool rnd = build fuel Types Pokedex pool rnd 0 [] 0"

subsection \<open>The team invariants in the words of the specification\<close>

definition base_unique :: "string list \<Rightarrow> bool" where
  \<comment> \<open>no two members share the same base species\<close>
  "base_unique team = distinct (map base_species team)"

definition has_marker :: "string \<Rightarrow> bool" where
  \<comment> \<open>the descriptor contains a mega or primal marker\<close>
  "has_marker p = (has_sub ''-Mega'' p \<or> has_sub ''-Primal'' p)"

definition marker_count :: "string list \<Rightarrow> nat" where
  "marker_count team = length (filter has_marker team)"

definition mega_count :: "string list \<Rightarrow> nat" where
  \<comment> \<open>the members the command itself tests for: \<open>[p for p in team if '-Mega' in p]\<close>\<close>
  "mega_count team = length (filter (has_sub ''-Mega'') team)"

subsection \<open>Example data\<close>

definition chart0 :: typechart where
  "chart0 =
     [(''Fire'', [(''Fire'', 1/2), (''Water'', 2), (''Grass'', 1/2)]),
      (''Water'', [(''Fire'', 1/2), (''Water'', 1/2), (''Grass'', 2)]),
      (''Grass'', [(''Fire'', 2), (''Water'', 1/2), (''Grass'', 1/2)])]"

definition dex0 :: pokedex where
  "dex0 =
     [(''Charizard'', [''Fire'']), (''Charizard-Mega-X'', [''Fire'', ''Grass'']),
      (''Groudon-Primal'', [''Fire'', ''Water'']), (''Kyogre-Primal'', [''Water'']),
      (''Ludicolo'', [''Water'', ''Grass'']), (''Venusaur'', [''Grass'']),
      (''Pikachu'', [''Water'', ''Grass'']), (''Sceptile'', [''Grass''])]"

definition pool0 :: "string list" where
  "pool0 = [''Charizard-Mega-X'', ''Charizard'', ''Groudon-Primal'', ''Kyogre-Primal'',
            ''Ludicolo'', ''Venusaur'']"

definition twice :: "nat \<Rightarrow> nat" where
  \<comment> \<open>a random source that draws every index twice in a row\<close>
  "twice i = i div 2"

section \<open>The battle handler (plugins/battling/battleHandler.py)\<close>

subsection \<open>Strings, numbers and decoded payloads\<close>

definition and_then :: "error + 'a \<Rightarrow> ('a \<Rightarrow> error + 'b) \<Rightarrow> error + 'b" where
  \<comment> \<open>evaluate the first expression, then the second; the first exception propagates\<close>
  "and_then x f = (case x of Inl e \<Rightarrow> Inl e | Inr v \<Rightarrow> f v)"

fun split_on :: "char \<Rightarrow> string \<Rightarrow> string list" where
  \<comment> \<open>\<open>s.split(sep)\<close> for a separator of one character\<close>
  "split_on sep [] = [[]]"
| "split_on sep (c # cs) =
     (if c = sep then [] # split_on sep cs
      else (case split_on sep cs of [] \<Rightarrow> [[c]] | f # fs \<Rightarrow> (c # f) # fs))"

fun show_nat :: "nat \<Rightarrow> string" where
  "show_nat n =
     (if n < 10 then [''0123456789'' ! n]
      else show_nat (n div 10) @ [''0123456789'' ! (n mod 10)])"

declare show_nat.simps [simp del]

definition show_int :: "int \<Rightarrow> string" where
  \<comment> \<open>an integer as \<open>str.format\<close> prints it\<close>
  "show_int i = (if i < 0 then CHR ''-'' # show_nat (nat (- i)) else show_nat (nat i))"

text \<open>
  \<open>json.loads\<close> belongs to the Python library; it is a parameter \<open>loads\<close> of the handler
  that returns the decoded document or raises \<open>ValueError\<close>. The operations below are
  the ones the handler applies to a decoded document, with Python's results on each kind
  of value.
\<close>

datatype json =
  JNull | JBool bool | JNum int | JStr string | JArr "json list" | JObj "(string \<times> json) list"

fun py_contains :: "string \<Rightarrow> json \<Rightarrow> error + bool" where
  \<comment> \<open>\<open>key in v\<close>\<close>
  "py_contains k (JObj kvs) = Inr (k \<in> set (keys kvs))"
| "py_contains k (JArr xs) = Inr (JStr k \<in> set xs)"
| "py_contains k (JStr s) = Inr (has_sub k s)"
| "py_contains k v = Inl TypeError"

fun py_item :: "json \<Rightarrow> string \<Rightarrow> error + json" where
  \<comment> \<open>\<open>v[key]\<close> for a string key\<close>
  "py_item (JObj kvs) k = lookup kvs k"
| "py_item v k = Inl TypeError"

fun py_iter :: "json \<Rightarrow> error + json list" where
  \<comment> \<open>the values of \<open>for x in v\<close>\<close>
  "py_iter (JArr xs) = Inr xs"
| "py_iter (JObj kvs) = Inr (map JStr (keys kvs))"
| "py_iter (JStr s) = Inr (map (\<lambda>c. JStr [c]) s)"
| "py_iter v = Inl TypeError"

subsection \<open>Entities, rosters and sessions\<close>

text \<open>
  \<open>plugins/battling/battle.py\<close> (the classes \<open>Pokemon\<close>, the side roster and \<open>Battle\<close>) is
  not part of the sources at hand. The records and the operations of this subsection
  follow section 3 and section 4.1 of the specification; the handler itself, below,
  follows the source. An entity's move list and a session's request id are typed as the
  data model has them (a list of strings, a string).
\<close>

record pokemon =
  species :: string
  details :: json
  condition :: json
  active :: json
  stats :: json
  moves :: "string list"
  baseAbility :: json
  item :: json
  canMegaEvo :: json

record player =
  pid :: string
  pname :: string
  roster :: "(string \<times> pokemon) list"
  active_key :: "string option"

record battle =
  bname :: string
  rqid :: string
  me :: player
  other :: player

fun as_moves :: "json \<Rightarrow> error + string list" where
  \<comment> \<open>Modelled from the spec: the class \<open>Pokemon\<close> is missing; an entity has an "ordered
      list of known moves", so the constructor accepts a list of strings\<close>
  "as_moves (JArr []) = Inr []"
| "as_moves (JArr (JStr s # xs)) = and_then (as_moves (JArr xs)) (\<lambda>ms. Inr (s # ms))"
| "as_moves v = Inl TypeError"

definition Pokemon :: "string \<Rightarrow> json \<Rightarrow> json \<Rightarrow> json \<Rightarrow> json \<Rightarrow> json \<Rightarrow> json \<Rightarrow> json \<Rightarrow> json \<Rightarrow>
    error + pokemon" where
  \<comment> \<open>Modelled from the spec: the constructor of the missing class \<open>Pokemon\<close>: the entity
      records the species identifier, the raw descriptor, the condition, the active flag,
      the stat block, the moves, the ability, the held item and the mega-evolution flag\<close>
  "Pokemon sp d c a st mv ab it cm =
     and_then (as_moves mv) (\<lambda>ms.
       Inr \<lparr>species = sp, details = d, condition = c, active = a, stats = st, moves = ms,
            baseAbility = ab, item = it, canMegaEvo = cm\<rparr>)"

definition new_player :: player where
  \<comment> \<open>Modelled from the spec: the roster of a new session of the missing class \<open>Battle\<close>:
      no identity, no entity, no active reference\<close>
  "new_player = \<lparr>pid = [], pname = [], roster = [], active_key = None\<rparr>"

definition Battle :: "string \<Rightarrow> battle" where
  \<comment> \<open>Modelled from the spec: the constructor of the missing class \<open>Battle\<close>: the session
      of a battle identifier owns two empty rosters and has no request id yet\<close>
  "Battle key = \<lparr>bname = key, rqid = [], me = new_player, other = new_player\<rparr>"

definition updateTeam :: "player \<Rightarrow> pokemon \<Rightarrow> player" where
  \<comment> \<open>Modelled from the spec: \<open>updateTeam\<close> of the missing roster class: "create-or-update
      the corresponding entity", keyed by the species\<close>
  "updateTeam pl p =
     pl\<lparr>roster := (if species p \<in> set (keys (roster pl))
                  then map (\<lambda>(k, q). if k = species p then (k, p) else (k, q)) (roster pl)
                  else roster pl @ [(species p, p)])\<rparr>"

definition getPokemon :: "player \<Rightarrow> string \<Rightarrow> string option" where
  \<comment> \<open>Modelled from the spec: \<open>getPokemon\<close> of the missing roster class: the reference to
      "the entity matching the switched-in species", none when the roster has no such
      entity; a reference is the key of the entity in the roster\<close>
  "getPokemon pl sp = (if sp \<in> set (keys (roster pl)) then Some sp else None)"

definition setActive :: "player \<Rightarrow> string option \<Rightarrow> player" where
  \<comment> \<open>Modelled from the spec: \<open>setActive\<close> of the missing roster class: "update that
      side's active reference"\<close>
  "setActive pl ref = pl\<lparr>active_key := ref\<rparr>"

definition active_of :: "player \<Rightarrow> pokemon option" where
  \<comment> \<open>Modelled from the spec: the attribute \<open>active\<close> of the missing roster class: the
      entity the active reference resolves to, \<open>None\<close> when it was never set\<close>
  "active_of pl = (case active_key pl of None \<Rightarrow> None | Some k \<Rightarrow> map_of (roster pl) k)"

definition setMe :: "battle \<Rightarrow> string \<Rightarrow> string \<Rightarrow> battle" where
  \<comment> \<open>Modelled from the spec: \<open>setMe\<close> of the missing class \<open>Battle\<close>: "bind the own Side
      Roster's identity"\<close>
  "setMe b nm sid = b\<lparr>me := (me b)\<lparr>pname := nm, pid := sid\<rparr>\<rparr>"

definition setOther :: "battle \<Rightarrow> string \<Rightarrow> string \<Rightarrow> battle" where
  \<comment> \<open>Modelled from the spec: \<open>setOther\<close> of the missing class \<open>Battle\<close>: "bind the
      opponent Side Roster's identity"\<close>
  "setOther b nm sid = b\<lparr>other := (other b)\<lparr>pname := nm, pid := sid\<rparr>\<rparr>"

subsection \<open>The handler\<close>

text \<open>
  The handler holds the bot's name and the table of the sessions. A call of \<open>parse\<close>
  ends by returning or by raising; either way the lines it has sent through the socket
  and the changes it has made to the table remain, so its outcome is the handler after
  the call, the lines sent and the exception, if one was raised.
\<close>

record handler =
  botName :: string
  activeBattles :: "string \<rightharpoonup> battle"

record outcome =
  state :: handler
  sent :: "string list"
  raised :: "error option"

definition returns :: "handler \<Rightarrow> string list \<Rightarrow> outcome" where
  "returns h out = \<lparr>state = h, sent = out, raised = None\<rparr>"

definition raises :: "handler \<Rightarrow> string list \<Rightarrow> error \<Rightarrow> outcome" where
  "raises h out e = \<lparr>state = h, sent = out, raised = Some e\<rparr>"

definition respond :: "string \<Rightarrow> string \<Rightarrow> string" where
  \<comment> \<open>the line of \<open>self.ws.send('{room}|{msg}'.format(room = battle, msg = msg))\<close>\<close>
  "respond battle msg = battle @ ''|'' @ msg"

definition getSpecies :: "string \<Rightarrow> error + string" where
  \<comment> \<open>\<open>details.split(',')[0]\<close>\<close>
  "getSpecies d = getindex (split_on CHR '','' d) 0"

definition getSpecies_of :: "json \<Rightarrow> error + string" where
  \<comment> \<open>\<open>getSpecies\<close> on a decoded value: only a string has \<open>split\<close>\<close>
  "getSpecies_of v = (case v of JStr s \<Rightarrow> getSpecies s | _ \<Rightarrow> Inl AttributeError)"

definition make_pokemon :: "json \<Rightarrow> error + pokemon" where
  \<comment> \<open>\<open>Pokemon(self.getSpecies(poke['details']), poke['details'], poke['condition'], ...)\<close>,
      the arguments evaluated from left to right\<close>
  "make_pokemon poke =
     and_then (py_item poke ''details'') (\<lambda>d0.
     and_then (getSpecies_of d0) (\<lambda>sp.
     and_then (py_item poke ''details'') (\<lambda>d.
     and_then (py_item poke ''condition'') (\<lambda>c.
     and_then (py_item poke ''active'') (\<lambda>a.
     and_then (py_item poke ''stats'') (\<lambda>st.
     and_then (py_item poke ''moves'') (\<lambda>mv.
     and_then (py_item poke ''baseAbility'') (\<lambda>ab.
     and_then (py_item poke ''item'') (\<lambda>it.
     and_then (py_item poke ''canMegaEvo'') (\<lambda>cm.
       Pokemon sp d c a st mv ab it cm))))))))))"

definition render_rqid :: "json \<Rightarrow> error + string" where
  \<comment> \<open>Modelled from the spec: the attribute \<open>rqid\<close> of the missing class \<open>Battle\<close> is the
      request id as the replies print it: a string as it is, a number in decimal\<close>
  "render_rqid v =
     (case v of JStr s \<Rightarrow> Inr s | JNum n \<Rightarrow> Inr (show_int n) | _ \<Rightarrow> Inl TypeError)"

definition store_rqid :: "handler \<Rightarrow> string \<Rightarrow> json \<Rightarrow> error + handler" where
  \<comment> \<open>\<open>self.activeBattles[battle].rqid = request['rqid']\<close>: the right-hand side first\<close>
  "store_rqid h battle request =
     and_then (py_item request ''rqid'') (\<lambda>v.
       case activeBattles h battle of None \<Rightarrow> Inl KeyError
       | Some b \<Rightarrow>
           and_then (render_rqid v) (\<lambda>s.
             Inr (h\<lparr>activeBattles := (activeBattles h)(battle \<mapsto> b\<lparr>rqid := s\<rparr>)\<rparr>)))"

fun update_all :: "handler \<Rightarrow> string \<Rightarrow> json list \<Rightarrow> outcome" where
  \<comment> \<open>\<open>for poke in sidedata['pokemon']: self.activeBattles[battle].me.updateTeam(Pokemon(...))\<close>\<close>
  "update_all h battle [] = returns h []"
| "update_all h battle (poke # rest) =
     (case activeBattles h battle of None \<Rightarrow> raises h [] KeyError
      | Some b \<Rightarrow>
          (case make_pokemon poke of Inl e \<Rightarrow> raises h [] e
           | Inr p \<Rightarrow>
               update_all
                 (h\<lparr>activeBattles := (activeBattles h)(battle \<mapsto> b\<lparr>me := updateTeam (me b) p\<rparr>)\<rparr>)
                 battle rest))"

definition on_request :: "(string \<Rightarrow> error + json) \<Rightarrow> handler \<Rightarrow> string \<Rightarrow> string list \<Rightarrow> outcome" where
  \<comment> \<open>lines 28 to 35\<close>
  "on_request loads h battle m =
     (case and_then (getindex m 2) loads of Inl e \<Rightarrow> raises h [] e
      | Inr request \<Rightarrow>
          (case py_contains ''rqid'' request of Inl e \<Rightarrow> raises h [] e
           | Inr has \<Rightarrow>
               (case (if has then store_rqid h battle request else Inr h) of
                  Inl e \<Rightarrow> raises h [] e
                | Inr h1 \<Rightarrow>
                    (case and_then (and_then (py_item request ''side'')
                                      (\<lambda>sidedata. py_item sidedata ''pokemon'')) py_iter of
                       Inl e \<Rightarrow> raises h1 [] e
                     | Inr pokes \<Rightarrow> update_all h1 battle pokes))))"

definition on_poke :: "handler \<Rightarrow> string \<Rightarrow> string list \<Rightarrow> outcome" where
  \<comment> \<open>lines 37 and 38: the comparison is evaluated, nothing is done with it\<close>
  "on_poke h battle m =
     (case activeBattles h battle of None \<Rightarrow> raises h [] KeyError
      | Some b \<Rightarrow> (case getindex m 2 of Inl e \<Rightarrow> raises h [] e | Inr x \<Rightarrow> returns h []))"

definition on_player :: "handler \<Rightarrow> string \<Rightarrow> string list \<Rightarrow> outcome" where
  \<comment> \<open>lines 40 to 43\<close>
  "on_player h battle m =
     (case getindex m 3 of Inl e \<Rightarrow> raises h [] e
      | Inr nm \<Rightarrow>
          (case activeBattles h battle of None \<Rightarrow> raises h [] KeyError
           | Some b \<Rightarrow>
               (case getindex m 2 of Inl e \<Rightarrow> raises h [] e
                | Inr sid \<Rightarrow>
                    returns
                      (h\<lparr>activeBattles := (activeBattles h)
                           (battle \<mapsto> (if nm = botName h then setMe b nm sid
                                        else setOther b nm sid))\<rparr>) [])))"

definition on_teampreview :: "handler \<Rightarrow> nat \<Rightarrow> string \<Rightarrow> outcome" where
  \<comment> \<open>line 45: \<open>'/team {nr}|{rqid}'.format(nr = randint(0,6), rqid = ...rqid)\<close>\<close>
  "on_teampreview h r battle =
     (case randint 0 6 r of Inl e \<Rightarrow> raises h [] e
      | Inr nr \<Rightarrow>
          (case activeBattles h battle of None \<Rightarrow> raises h [] KeyError
           | Some b \<Rightarrow> returns h [respond battle (''/team '' @ show_int nr @ ''|'' @ rqid b)]))"

definition on_turn :: "handler \<Rightarrow> nat \<Rightarrow> string \<Rightarrow> outcome" where
  \<comment> \<open>lines 47 and 48: \<open>move = ...me.active.moves[randint(0,3)]\<close>\<close>
  "on_turn h r battle =
     (case activeBattles h battle of None \<Rightarrow> raises h [] KeyError
      | Some b \<Rightarrow>
          (case active_of (me b) of None \<Rightarrow> raises h [] AttributeError
           | Some p \<Rightarrow>
               (case and_then (randint 0 3 r) (getindex (moves p)) of
                  Inl e \<Rightarrow> raises h [] e
                | Inr move \<Rightarrow>
                    returns h [respond battle (''/choose move '' @ move @ ''|'' @ rqid b)])))"

definition on_switch :: "handler \<Rightarrow> string \<Rightarrow> string list \<Rightarrow> outcome" where
  \<comment> \<open>lines 50 to 54\<close>
  "on_switch h battle m =
     (case activeBattles h battle of None \<Rightarrow> raises h [] KeyError
      | Some btl \<Rightarrow>
          (case getindex m 2 of Inl e \<Rightarrow> raises h [] e
           | Inr who \<Rightarrow>
               (case and_then (getindex m 3) getSpecies of Inl e \<Rightarrow> raises h [] e
                | Inr sp \<Rightarrow>
                    returns
                      (h\<lparr>activeBattles := (activeBattles h)
                           (battle \<mapsto>
                              (if prefix (pid (me btl)) who
                               then btl\<lparr>me := setActive (me btl) (getPokemon (me btl) sp)\<rparr>
                               else btl\<lparr>other :=
                                      setActive (other btl) (getPokemon (other btl) sp)\<rparr>))\<rparr>)
                      [])))"

definition remark :: "handler \<Rightarrow> string \<Rightarrow> string" where
  \<comment> \<open>the closing remark of lines 56 to 59\<close>
  "remark h winner =
     (if winner = botName h then ''O-oh, I won? Sorry :(''
      else ''It'' @ [CHR 0x27] @ ''s okay, you'' @ [CHR 0x27] @ ''re better than me :>'')"

definition on_end :: "handler \<Rightarrow> string \<Rightarrow> string list \<Rightarrow> outcome" where
  \<comment> \<open>lines 56 to 60\<close>
  "on_end h battle m =
     (case getindex m 2 of Inl e \<Rightarrow> raises h [] e
      | Inr winner \<Rightarrow> returns h [respond battle (remark h winner), respond battle ''/leave''])"

definition parse :: "(string \<Rightarrow> error + json) \<Rightarrow> handler \<Rightarrow> nat \<Rightarrow> string \<Rightarrow> string \<Rightarrow> outcome" where
  \<comment> \<open>\<open>BattleHandler.parse(battle, msg)\<close>; \<open>r\<close> is the draw of the random source, for the
      two branches that make one\<close>
  "parse loads h r battle msg =
     (if msg = [] then returns h []
      else if activeBattles h battle \<noteq> None \<and> has_sub ''init'' msg then returns h []
      else
        (let m = split_on CHR ''|'' msg in
         case getindex m 1 of Inl e \<Rightarrow> raises h [] e
         | Inr tag \<Rightarrow>
             (case (if tag = ''init'' then and_then (getindex m 2) (\<lambda>x. Inr (x = ''battle''))
                    else Inr False) of
                Inl e \<Rightarrow> raises h [] e
              | Inr starts \<Rightarrow>
                  if starts then
                    returns (h\<lparr>activeBattles := (activeBattles h)(battle \<mapsto> Battle battle)\<rparr>)
                      [respond battle ''/timer'']
                  else if tag = ''request'' then on_request loads h battle m
                  else if tag = ''poke'' then on_poke h battle m
                  else if tag = ''player'' then on_player h battle m
                  else if tag = ''teampreview'' then on_teampreview h r battle
                  else if tag = ''turn'' then on_turn h r battle
                  else if tag = ''switch'' then on_switch h battle m
                  else if tag \<in> set [''win'', ''tie''] then on_end h battle m
                  else returns h [])))"

subsection \<open>Messages by their tag\<close>

definition tag_of :: "string \<Rightarrow> error + string" where
  \<comment> \<open>\<open>msg.split('|')[1]\<close>\<close>
  "tag_of msg = getindex (split_on CHR ''|'' msg) 1"

definition starts_battle :: "string \<Rightarrow> bool" where
  \<comment> \<open>an \<open>init battle\<close> line: the test of line 23\<close>
  "starts_battle msg \<longleftrightarrow>
     tag_of msg = Inr ''init'' \<and> getindex (split_on CHR ''|'' msg) 2 = Inr ''battle''"

subsection \<open>Example sessions\<close>

definition loads0 :: "string \<Rightarrow> error + json" where
  \<comment> \<open>a decoder that knows the empty object only\<close>
  "loads0 s = (if s = ''{}'' then Inr (JObj []) else Inl ValueError)"

definition ditto :: pokemon where
  "ditto = \<lparr>species = ''Ditto'', details = JStr ''Ditto'', condition = JStr ''100/100'',
            active = JBool True, stats = JObj [], moves = [''transform''],
            baseAbility = JStr ''limber'', item = JStr '''', canMegaEvo = JBool False\<rparr>"

definition battle0 :: battle where
  \<comment> \<open>a session at team preview, with request id 42\<close>
  "battle0 = (Battle ''room1'')\<lparr>rqid := ''42''\<rparr>"

definition battle1 :: battle where
  \<comment> \<open>a session whose own side has Ditto active\<close>
  "battle1 = battle0\<lparr>me := \<lparr>pid = ''p1'', pname = ''BotName'', roster = [(''Ditto'', ditto)],
                             active_key = Some ''Ditto''\<rparr>\<rparr>"

definition handler_none :: handler where
  "handler_none = \<lparr>botName = ''BotName'', activeBattles = Map.empty\<rparr>"

definition handler0 :: handler where
  "handler0 = \<lparr>botName = ''BotName'', activeBattles = [''room1'' \<mapsto> battle0]\<rparr>"

definition handler1 :: handler where
  "handler1 = \<lparr>botName = ''BotName'', activeBattles = [''room1'' \<mapsto> battle1]\<rparr>"

section \<open>Auxiliary notions for the proofs\<close>

definition bump :: "rat \<Rightarrow> nat \<times> nat \<Rightarrow> nat \<times> nat" where
  \<comment> \<open>the effect of one member on the counters of one attacking type\<close>
  "bump x c = (if x > 1 then (Suc (fst c), snd c) else if x < 1 then (fst c, Suc (snd c)) else c)"

definition settled :: "typechart \<Rightarrow> pokedex \<Rightarrow> string list \<Rightarrow> bool" where
  \<comment> \<open>the invariant of the builder's loop\<close>
  "settled Types Pokedex team \<longleftrightarrow> team = [] \<or> acceptableWeakness Types Pokedex team = Inr True"

section \<open>Indexing\<close>

lemma getindex_in_set: "getindex xs i = Inr x \<Longrightarrow> x \<in> set xs"
  by (auto simp: getindex_def split: if_splits)

section \<open>The acceptability predicate is the specified one\<close>

lemma tally_total:
  "distinct ks \<Longrightarrow> \<forall>m \<in> set ks. eff m = Inr (f m) \<Longrightarrow> \<forall>m \<in> set ks. cnt m \<noteq> None \<Longrightarrow>
   tally eff ks cnt =
     Inr (\<lambda>t. if t \<in> set ks then map_option (bump (f t)) (cnt t) else cnt t)"
proof (induction ks arbitrary: cnt)
  case Nil
  then show ?case by simp
next
  case (Cons m ks)
  obtain w r where c: "cnt m = Some (w, r)" using Cons.prems(3) by fastforce
  have d: "distinct ks" "m \<notin> set ks" using Cons.prems(1) by simp_all
  have e: "\<forall>k \<in> set ks. eff k = Inr (f k)" "eff m = Inr (f m)" using Cons.prems(2) by simp_all
  have n: "\<forall>k \<in> set ks. (cnt(m \<mapsto> v)) k \<noteq> None" for v using Cons.prems(3) by simp
  have n0: "\<forall>k \<in> set ks. cnt k \<noteq> None" using Cons.prems(3) by simp
  show ?case
  proof (cases "f m > 1")
    case True
    have "tally eff (m # ks) cnt = tally eff ks (cnt(m \<mapsto> (Suc w, r)))"
      using True c e(2) by (simp add: add_weak_def)
    also have "\<dots> = Inr (\<lambda>t. if t \<in> set ks then map_option (bump (f t)) ((cnt(m \<mapsto> (Suc w, r))) t)
                             else (cnt(m \<mapsto> (Suc w, r))) t)"
      by (rule Cons.IH[OF d(1) e(1) n])
    also have "\<dots> = Inr (\<lambda>t. if t \<in> set (m # ks) then map_option (bump (f t)) (cnt t) else cnt t)"
      using True c d(2) by (auto simp: bump_def fun_eq_iff)
    finally show ?thesis .
  next
    case False
    show ?thesis
    proof (cases "f m < 1")
      case True
      have "tally eff (m # ks) cnt = tally eff ks (cnt(m \<mapsto> (w, Suc r)))"
        using True c e(2) by (simp add: add_res_def)
      also have "\<dots> = Inr (\<lambda>t. if t \<in> set ks then map_option (bump (f t)) ((cnt(m \<mapsto> (w, Suc r))) t)
                               else (cnt(m \<mapsto> (w, Suc r))) t)"
        by (rule Cons.IH[OF d(1) e(1) n])
      also have "\<dots> = Inr (\<lambda>t. if t \<in> set (m # ks) then map_option (bump (f t)) (cnt t) else cnt t)"
        using True c d(2) by (auto simp: bump_def fun_eq_iff)
      finally show ?thesis .
    next
      case F2: False
      have "tally eff (m # ks) cnt = tally eff ks cnt"
        using False F2 e(2) by simp
      also have "\<dots> = Inr (\<lambda>t. if t \<in> set ks then map_option (bump (f t)) (cnt t) else cnt t)"
        by (rule Cons.IH[OF d(1) e(1) n0])
      also have "\<dots> = Inr (\<lambda>t. if t \<in> set (m # ks) then map_option (bump (f t)) (cnt t) else cnt t)"
        using False F2 c d(2) by (auto simp: bump_def fun_eq_iff)
      finally show ?thesis .
    qed
  qed
qed


lemma entry_total:
  "row_ok Types ty \<Longrightarrow> m \<in> set (keys Types) \<Longrightarrow> entry Types ty m = Inr (multiplier Types ty m)"
  by (auto simp: row_ok_def entry_def lookup_def multiplier_def list_all_iff
           split: option.splits)

lemma poke_eff_total:
  assumes "length types = 1 \<or> length types = 2" and "list_all (row_ok Types) types"
    and "m \<in> set (keys Types)"
  shows "poke_eff Types types m = Inr (prod_list (map (\<lambda>ty. multiplier Types ty m) types))"
proof -
  from assms(1) consider a where "types = [a]" | a b where "types = [a, b]"
    by (cases types; cases "tl types"; cases "tl (tl types)") auto
  then show ?thesis
  proof cases
    case 1
    then show ?thesis using assms(2,3) by (simp add: poke_eff_def entry_total)
  next
    case 2
    then show ?thesis using assms(2,3) by (simp add: poke_eff_def entry_total)
  qed
qed

lemma count_team_total:
  assumes "distinct (keys Types)" and "list_all (species_ok Types Pokedex) team"
    and "\<forall>t \<in> set (keys Types). cnt t \<noteq> None"
  shows "count_team Types Pokedex team cnt =
     Inr (\<lambda>t. if t \<in> set (keys Types)
               then map_option (\<lambda>c. (fst c + weak_count Types Pokedex team t,
                                       snd c + resistant_count Types Pokedex team t)) (cnt t)
               else cnt t)"
  using assms(2,3)
proof (induction team arbitrary: cnt)
  case Nil
  then show ?case
    by (auto simp: weak_count_def resistant_count_def fun_eq_iff option.map_ident
             split: option.splits)
next
  case (Cons p team)
  from Cons.prems(1) obtain types where
    ty: "map_of Pokedex p = Some types" "length types = 1 \<or> length types = 2"
        "list_all (row_ok Types) types"
    by (auto simp: species_ok_def split: option.splits)
  let ?f = "\<lambda>m. prod_list (map (\<lambda>ty. multiplier Types ty m) types)"
  let ?c1 = "\<lambda>t. if t \<in> set (keys Types) then map_option (bump (?f t)) (cnt t) else cnt t"
  have t1: "tally (poke_eff Types types) (keys Types) cnt = Inr ?c1"
    by (rule tally_total[OF assms(1) _ Cons.prems(2)]) (simp add: poke_eff_total[OF ty(2,3)])
  have n1: "\<forall>t \<in> set (keys Types). ?c1 t \<noteq> None"
    using Cons.prems(2) by auto
  have rest: "list_all (species_ok Types Pokedex) team" using Cons.prems(1) by simp
  have "count_team Types Pokedex (p # team) cnt = count_team Types Pokedex team ?c1"
    using ty(1) t1 by (simp add: lookup_def)
  also note Cons.IH[OF rest n1]
  finally show ?case
    using ty(1)
    by (auto simp: fun_eq_iff weak_count_def resistant_count_def effectiveness_def bump_def
                   option.map_comp comp_def
             split: option.splits)
qed

lemma verdict_total:
  assumes "\<forall>t \<in> set ts. cnt t = Some (w t, r t)"
  shows "verdict cnt ts = Inr (\<forall>t \<in> set ts. w t < 3 \<and> \<not> (w t \<ge> 2 \<and> r t \<le> 1))"
  using assms by (induction ts) auto

lemma init_comp_keys: "t \<in> set (keys Types) \<Longrightarrow> init_comp Types t = Some (0, 0)"
  by (induction Types) (auto simp: init_comp_def keys_def)

lemma acceptableWeakness_total:
  assumes "catalog_ok Types Pokedex team"
  shows "acceptableWeakness Types Pokedex team = Inr (acceptable Types Pokedex team)"
proof (cases "team = []")
  case True
  then show ?thesis by (simp add: acceptableWeakness_def acceptable_def)
next
  case False
  from assms have d: "distinct (keys Types)" and s: "list_all (species_ok Types Pokedex) team"
    by (simp_all add: catalog_ok_def)
  have n: "\<forall>t \<in> set (keys Types). init_comp Types t \<noteq> None"
    by (simp add: init_comp_keys)
  note c = count_team_total[OF d s n]
  have v: "verdict (\<lambda>t. if t \<in> set (keys Types)
               then map_option (\<lambda>c. (fst c + weak_count Types Pokedex team t,
                                       snd c + resistant_count Types Pokedex team t)) (init_comp Types t)
               else init_comp Types t) (keys Types)
       = Inr (\<forall>t \<in> set (keys Types). weak_count Types Pokedex team t < 3 \<and>
               \<not> (weak_count Types Pokedex team t \<ge> 2 \<and> resistant_count Types Pokedex team t \<le> 1))"
    by (rule verdict_total) (simp add: init_comp_keys)
  show ?thesis
    using False by (simp add: acceptableWeakness_def c v acceptable_def)
qed

text \<open>
  C1. On a team whose members are in the catalog with one or two types each, all of them
  rows of the chart, \<open>acceptableWeakness\<close> returns \<open>True\<close> exactly when the team is
  not empty and, for every attacking type \<open>t\<close>, fewer than 3 members are weak to \<open>t\<close> and
  it is not the case that at least 2 are weak and at most 1 is resistant; a member is weak
  when the product of the multipliers of its types versus \<open>t\<close> is above 1, resistant when
  it is below 1, and neither when it is 1. The empty team is never acceptable.
\<close>

theorem acceptableWeakness_meets_spec:
  "(catalog_ok Types Pokedex team \<longrightarrow>
      acceptableWeakness Types Pokedex team = Inr (acceptable Types Pokedex team)) \<and>
   acceptableWeakness Types Pokedex [] = Inr False \<and> \<not> acceptable Types Pokedex []"
  by (simp add: acceptableWeakness_total) (simp add: acceptableWeakness_def acceptable_def)

theorem acceptableWeakness_meets_spec_witness:
  "catalog_ok chart0 dex0 [''Charizard'', ''Ludicolo'', ''Venusaur''] \<and>
   acceptable chart0 dex0 [''Charizard'', ''Ludicolo'', ''Venusaur''] \<and>
   acceptableWeakness chart0 dex0 [''Charizard'', ''Ludicolo'', ''Venusaur''] = Inr True \<and>
   \<not> acceptable chart0 dex0 [''Venusaur'', ''Sceptile'', ''Ludicolo''] \<and>
   acceptableWeakness chart0 dex0 [''Venusaur'', ''Sceptile'', ''Ludicolo''] = Inr False"
proof -
  have ok: "catalog_ok chart0 dex0 [''Charizard'', ''Ludicolo'', ''Venusaur'']"
           "catalog_ok chart0 dex0 [''Venusaur'', ''Sceptile'', ''Ludicolo'']"
    by code_simp+
  have run: "acceptableWeakness chart0 dex0 [''Charizard'', ''Ludicolo'', ''Venusaur''] = Inr True"
            "acceptableWeakness chart0 dex0 [''Venusaur'', ''Sceptile'', ''Ludicolo''] = Inr False"
    by code_simp+
  show ?thesis
    using ok run
      acceptableWeakness_meets_spec[of chart0 dex0 "[''Charizard'', ''Ludicolo'', ''Venusaur'']"]
      acceptableWeakness_meets_spec[of chart0 dex0 "[''Venusaur'', ''Sceptile'', ''Ludicolo'']"]
    by simp
qed

section \<open>The teams of the builder\<close>

subsection \<open>Facts about one iteration\<close>

lemma try_add_cases:
  assumes "try_add Types Pokedex poke team = Inr team'"
  shows "(team' = List.insert poke team \<and> acceptableWeakness Types Pokedex team' = Inr True) \<or>
         (team' = removeAll poke team \<and>
          acceptableWeakness Types Pokedex (List.insert poke team) = Inr False)"
  using assms
  by (auto simp: try_add_def Let_def List.insert_def split: sum.splits if_splits)

lemma try_add_settled:
  assumes "try_add Types Pokedex poke team = Inr team'" and "settled Types Pokedex team"
  shows "settled Types Pokedex team'"
proof -
  from try_add_cases[OF assms(1)] show ?thesis
  proof
    assume "team' = List.insert poke team \<and> acceptableWeakness Types Pokedex team' = Inr True"
    then show ?thesis unfolding settled_def by blast
  next
    assume r: "team' = removeAll poke team \<and>
               acceptableWeakness Types Pokedex (List.insert poke team) = Inr False"
    show ?thesis
    proof (cases "poke \<in> set team")
      case True
      then have "List.insert poke team = team" by (simp add: List.insert_def)
      with r assms(2) True show ?thesis by (auto simp: settled_def)
    next
      case False
      then have "removeAll poke team = team" by simp
      with r assms(2) show ?thesis by simp
    qed
  qed
qed

lemma try_add_length:
  assumes "try_add Types Pokedex poke team = Inr team'"
  shows "length team' \<le> Suc (length team)"
proof -
  have "length (removeAll poke team) \<le> Suc (length team)" by (rule le_SucI) simp
  moreover have "length (List.insert poke team) \<le> Suc (length team)"
    by (simp add: List.insert_def)
  ultimately show ?thesis using try_add_cases[OF assms] by blast
qed

lemma build_direct_settled:
  assumes "build fuel Types Pokedex pool rnd i team attempts = Some (Inr (Direct, t))"
    and "settled Types Pokedex team" and "length team \<le> 6"
  shows "acceptableWeakness Types Pokedex t = Inr True \<and> length t = 6"
  using assms
proof (induction fuel arbitrary: i team attempts)
  case 0
  then show ?case by simp
next
  case (Suc fuel)
  show ?case
  proof (cases "length team < 6")
    case False
    with Suc.prems show ?thesis
      by (auto simp: loop_cond_def settled_def split: sum.splits if_splits)
  next
    case True
    then have go: "loop_cond Types Pokedex team = Inr True" by (simp add: loop_cond_def)
    from Suc.prems(1) go obtain poke where p: "pick pool (rnd i) = Inr poke"
      by (cases "pick pool (rnd i)") auto
    show ?thesis
    proof (cases "base_species poke \<in> set team \<or>
                  (filter (has_sub ''-Mega'') team \<noteq> [] \<and> has_sub ''-Mega'' poke)")
      case skip: True
      then have "build fuel Types Pokedex pool rnd (Suc i) team attempts = Some (Inr (Direct, t))"
        using Suc.prems(1) go p by (auto split: if_splits)
      then show ?thesis by (rule Suc.IH[OF _ Suc.prems(2,3)])
    next
      case noskip: False
      from Suc.prems(1) go p noskip obtain team' where
        a: "try_add Types Pokedex poke team = Inr team'"
        by (cases "try_add Types Pokedex poke team") auto
      have s': "settled Types Pokedex team'" by (rule try_add_settled[OF a Suc.prems(2)])
      have l': "length team' \<le> 6" using try_add_length[OF a] True by simp
      show ?thesis
      proof (cases "length team' \<ge> 6")
        case True
        then have "t = team'" using Suc.prems(1) go p noskip a by auto
        with True s' l' show ?thesis by (auto simp: settled_def)
      next
        case short: False
        show ?thesis
        proof (cases "Suc attempts \<ge> 100")
          case True
          then show ?thesis using Suc.prems(1) go p noskip a short
            by (auto split: option.splits sum.splits)
        next
          case False
          then have "build fuel Types Pokedex pool rnd (Suc i) team' (Suc attempts)
                     = Some (Inr (Direct, t))"
            using Suc.prems(1) go p noskip a short by auto
          then show ?thesis by (rule Suc.IH[OF _ s' l'])
        qed
      qed
    qed
  qed
qed

text \<open>
  C6. A team that the builder returns from its loop, before the fill that follows the
  100th attempt, has 6 members and \<open>acceptableWeakness\<close> returns \<open>True\<close> on it.
\<close>

theorem direct_team_acceptable:
  assumes "team_command fuel Types Pokedex pool rnd = Some (Inr (Direct, t))"
  shows "length t = 6 \<and> acceptableWeakness Types Pokedex t = Inr True"
  using build_direct_settled[of fuel Types Pokedex pool rnd 0 "[]" 0 t] assms
  by (simp add: team_command_def settled_def)

theorem direct_team_acceptable_witness:
  "team_command 50 chart0 dex0 pool0 id = Some (Inr (Direct, rev pool0)) \<and>
   length (rev pool0) = 6 \<and> acceptableWeakness chart0 dex0 (rev pool0) = Inr True"
proof -
  have run: "team_command 50 chart0 dex0 pool0 id = Some (Inr (Direct, rev pool0))"
    by code_simp
  from direct_team_acceptable[OF run] run show ?thesis by simp
qed

subsection \<open>Mega forms\<close>

lemma filter_insert_le:
  assumes "filter P team = [] \<or> \<not> P poke" and "length (filter P team) \<le> 1"
  shows "length (filter P (List.insert poke team)) \<le> 1"
  using assms by (auto simp: List.insert_def)

lemma filter_removeAll_le: "length (filter P (removeAll x xs)) \<le> length (filter P xs)"
  by (induction xs) auto

lemma try_add_mega:
  assumes "try_add Types Pokedex poke team = Inr team'"
    and "filter (has_sub ''-Mega'') team = [] \<or> \<not> has_sub ''-Mega'' poke"
    and "mega_count team \<le> 1"
  shows "mega_count team' \<le> 1"
proof -
  have i: "mega_count (List.insert poke team) \<le> 1"
    using assms(2,3) unfolding mega_count_def by (rule filter_insert_le)
  have "mega_count (removeAll poke (List.insert poke team)) \<le> mega_count (List.insert poke team)"
    unfolding mega_count_def by (rule filter_removeAll_le)
  with i have r: "mega_count (removeAll poke (List.insert poke team)) \<le> 1" by simp
  from assms(1) i r show ?thesis
    by (auto simp: try_add_def Let_def split: sum.splits if_splits)
qed

lemma build_direct_mega:
  assumes "build fuel Types Pokedex pool rnd i team attempts = Some (Inr (Direct, t))"
    and "mega_count team \<le> 1"
  shows "mega_count t \<le> 1"
  using assms
proof (induction fuel arbitrary: i team attempts)
  case 0
  then show ?case by simp
next
  case (Suc fuel)
  show ?case
  proof (cases "loop_cond Types Pokedex team")
    case (Inl e)
    with Suc.prems(1) show ?thesis by simp
  next
    case (Inr go)
    show ?thesis
    proof (cases go)
      case False
      with Inr Suc.prems show ?thesis by simp
    next
      case True
      with Inr Suc.prems(1) obtain poke where p: "pick pool (rnd i) = Inr poke"
        by (cases "pick pool (rnd i)") auto
      show ?thesis
      proof (cases "base_species poke \<in> set team \<or>
                    (filter (has_sub ''-Mega'') team \<noteq> [] \<and> has_sub ''-Mega'' poke)")
        case skip: True
        then have "build fuel Types Pokedex pool rnd (Suc i) team attempts = Some (Inr (Direct, t))"
          using Suc.prems(1) Inr True p by (auto split: if_splits)
        then show ?thesis by (rule Suc.IH[OF _ Suc.prems(2)])
      next
        case noskip: False
        from Suc.prems(1) Inr True p noskip obtain team' where
          a: "try_add Types Pokedex poke team = Inr team'"
          by (cases "try_add Types Pokedex poke team") auto
        have m': "mega_count team' \<le> 1"
          using try_add_mega[OF a _ Suc.prems(2)] noskip by blast
        show ?thesis
        proof (cases "length team' \<ge> 6")
          case True
          then have "t = team'" using Suc.prems(1) Inr \<open>go\<close> p noskip a by auto
          with m' show ?thesis by simp
        next
          case short: False
          show ?thesis
          proof (cases "Suc attempts \<ge> 100")
            case True
            then show ?thesis using Suc.prems(1) Inr \<open>go\<close> p noskip a short
              by (auto split: option.splits sum.splits)
          next
            case False
            then have "build fuel Types Pokedex pool rnd (Suc i) team' (Suc attempts)
                       = Some (Inr (Direct, t))"
              using Suc.prems(1) Inr \<open>go\<close> p noskip a short by auto
            then show ?thesis by (rule Suc.IH[OF _ m'])
          qed
        qed
      qed
    qed
  qed
qed

text \<open>
  C5, amended. In a team that the builder returns from its loop, before the fill that
  follows the 100th attempt, at most one member's descriptor contains \<open>-Mega\<close>, the
  marker the command tests for. Members with \<open>-Primal\<close> are not limited, and the fill
  makes its picks without any test.
\<close>

theorem direct_team_one_mega:
  assumes "team_command fuel Types Pokedex pool rnd = Some (Inr (Direct, t))"
  shows "mega_count t \<le> 1"
  using build_direct_mega[of fuel Types Pokedex pool rnd 0 "[]" 0 t] assms
  by (simp add: team_command_def mega_count_def)

theorem direct_team_one_mega_witness:
  "team_command 50 chart0 dex0 pool0 twice = Some (Inr (Direct, rev pool0)) \<and>
   mega_count (rev pool0) \<le> 1"
proof -
  have run: "team_command 50 chart0 dex0 pool0 twice = Some (Inr (Direct, rev pool0))"
    by code_simp
  from direct_team_one_mega[OF run] run show ?thesis by simp
qed

text \<open>
  The claim as stated fails: the team returned for the pool \<open>pool0\<close>, drawn in order,
  holds Charizard-Mega-X and Charizard, which share a base species, and three members
  with a mega or primal marker.
\<close>

theorem direct_team_shares_base_species:
  "team_command 50 chart0 dex0 pool0 id = Some (Inr (Direct, rev pool0)) \<and>
   \<not> base_unique (rev pool0) \<and> \<not> marker_count (rev pool0) \<le> 1"
  by code_simp

subsection \<open>Pools of fewer than six species\<close>

lemma pick_in_pool: "pick pool r = Inr poke \<Longrightarrow> poke \<in> set pool"
  by (auto simp: pick_def split: sum.splits dest: getindex_in_set)

lemma small_team:
  assumes "set team \<subseteq> set pool" and "distinct team" and "card (set pool) < 6"
  shows "length team < 6"
proof -
  have "length team = card (set team)" using assms(2) by (simp add: distinct_card)
  also have "\<dots> \<le> card (set pool)" using assms(1) by (simp add: card_mono)
  finally show ?thesis using assms(3) by simp
qed

lemma fill_small_pool:
  assumes "set team \<subseteq> set pool" and "distinct team" and "card (set pool) < 6"
  shows "fill fuel pool rnd i team \<noteq> Some (Inr t)"
  using assms(1,2)
proof (induction fuel arbitrary: i team)
  case 0
  then show ?case by simp
next
  case (Suc fuel)
  have l: "length team < 6" by (rule small_team[OF Suc.prems assms(3)])
  show ?case
  proof (cases "pick pool (rnd i)")
    case (Inl e)
    with l show ?thesis by simp
  next
    case (Inr poke)
    have "set (List.insert poke team) \<subseteq> set pool" "distinct (List.insert poke team)"
      using pick_in_pool[OF Inr] Suc.prems by simp_all
    from Suc.IH[OF this] Inr l show ?thesis by simp
  qed
qed

lemma try_add_small_pool:
  assumes "try_add Types Pokedex poke team = Inr team'" and "poke \<in> set pool"
    and "set team \<subseteq> set pool" and "distinct team"
  shows "set team' \<subseteq> set pool \<and> distinct team'"
proof -
  have "set (List.insert poke team) \<subseteq> set pool" "distinct (List.insert poke team)"
    using assms(2,3,4) by simp_all
  moreover from this
  have "set (removeAll poke (List.insert poke team)) \<subseteq> set pool"
       "distinct (removeAll poke (List.insert poke team))"
    by (auto simp: distinct_removeAll)
  ultimately show ?thesis
    using assms(1) by (auto simp: try_add_def Let_def split: sum.splits if_splits)
qed

lemma build_small_pool:
  assumes "set team \<subseteq> set pool" and "distinct team" and "card (set pool) < 6"
  shows "build fuel Types Pokedex pool rnd i team attempts \<noteq> Some (Inr x)"
  using assms(1,2)
proof (induction fuel arbitrary: i team attempts)
  case 0
  then show ?case by simp
next
  case (Suc fuel)
  have l: "length team < 6" by (rule small_team[OF Suc.prems assms(3)])
  then have go: "loop_cond Types Pokedex team = Inr True" by (simp add: loop_cond_def)
  show ?case
  proof (cases "pick pool (rnd i)")
    case (Inl e)
    with go show ?thesis by simp
  next
    case (Inr poke)
    note p = this
    show ?thesis
    proof (cases "base_species poke \<in> set team \<or>
                  (filter (has_sub ''-Mega'') team \<noteq> [] \<and> has_sub ''-Mega'' poke)")
      case True
      with go p Suc.IH[OF Suc.prems] show ?thesis by auto
    next
      case noskip: False
      show ?thesis
      proof (cases "try_add Types Pokedex poke team")
        case (Inl e)
        with go p noskip show ?thesis by auto
      next
        case (Inr team')
        from try_add_small_pool[OF Inr pick_in_pool[OF p] Suc.prems]
        have s: "set team' \<subseteq> set pool" and d: "distinct team'" by simp_all
        have l': "length team' < 6" by (rule small_team[OF s d assms(3)])
        show ?thesis
          using go p noskip Inr l' Suc.IH[OF s d] fill_small_pool[OF s d assms(3)]
          by (auto split: option.splits sum.splits)
      qed
    qed
  qed
qed

lemma pick_single: "pick [p] r = Inr p"
  by (simp add: pick_def randint_def getindex_def)

lemma fill_single: "fill fuel [p] rnd i [p] = None"
  by (induction fuel arbitrary: i) (simp_all add: pick_single)

lemma build_single:
  assumes "team = [] \<or> team = [''Pikachu'']"
  shows "build fuel chart0 dex0 [''Pikachu''] rnd i team attempts = None"
  using assms
proof (induction fuel arbitrary: i team attempts)
  case 0
  then show ?case by simp
next
  case (Suc fuel)
  have b: "base_species ''Pikachu'' = ''Pikachu''" by code_simp
  have m: "\<not> has_sub ''-Mega'' ''Pikachu''" by code_simp
  have a: "acceptableWeakness chart0 dex0 [''Pikachu''] = Inr True" by code_simp
  have t: "try_add chart0 dex0 ''Pikachu'' [] = Inr [''Pikachu'']"
    by (simp add: try_add_def a)
  from Suc.prems show ?case
  proof
    assume e: "team = []"
    show ?thesis
      using Suc.IH[of "[''Pikachu'']" "Suc i" "Suc attempts"]
      by (simp add: e loop_cond_def pick_single b t fill_single)
  next
    assume e: "team = [''Pikachu'']"
    show ?thesis
      using Suc.IH[of "[''Pikachu'']" "Suc i" attempts]
      by (simp add: e loop_cond_def pick_single b)
  qed
qed

text \<open>
  C7 (the code departs from the claim). With the pool of the single species Pikachu the
  builder never returns, whatever the random source draws and however long it runs:
  neither a team nor an error. A draw already in the team takes the \<open>continue\<close> of the
  loop, which skips the attempt counter, and the fill after 100 attempts waits for a
  sixth member that the pool cannot give (\<open>build_small_pool\<close>: no pool of fewer than 6
  species ever yields a team).
\<close>

theorem undersized_pool_never_returns:
  "team_command fuel chart0 dex0 [''Pikachu''] rnd = None"
  by (simp add: team_command_def build_single)

section \<open>The handler on tracked and unknown sessions\<close>

subsection \<open>Fields of a line, branches without a session\<close>

lemma split_on_nonempty: "split_on sep s \<noteq> []"
  by (induction s) (auto split: list.splits)

lemma split_on_first_prefix: "split_on sep s = g # gs \<Longrightarrow> prefix g s"
  by (induction s arbitrary: g gs) (auto split: if_splits list.splits)

lemma split_on_sublist: "f \<in> set (split_on sep s) \<Longrightarrow> sublist f s"
proof (induction s arbitrary: f)
  case Nil
  then show ?case by simp
next
  case (Cons c cs)
  show ?case
  proof (cases "c = sep")
    case True
    with Cons.prems have "f = [] \<or> f \<in> set (split_on sep cs)" by auto
    then show ?thesis using Cons.IH by (auto simp: sublist_Cons_right)
  next
    case False
    obtain g gs where s: "split_on sep cs = g # gs"
      using split_on_nonempty[of sep cs] by (cases "split_on sep cs") auto
    with False Cons.prems have "f = c # g \<or> f \<in> set gs" by auto
    then show ?thesis
    proof
      assume "f = c # g"
      with split_on_first_prefix[OF s] show ?thesis by (simp add: sublist_Cons_right)
    next
      assume "f \<in> set gs"
      with s have "f \<in> set (split_on sep cs)" by simp
      from Cons.IH[OF this] show ?thesis by (simp add: sublist_Cons_right)
    qed
  qed
qed

lemma starts_battle_has_init: "starts_battle msg \<Longrightarrow> has_sub ''init'' msg"
  unfolding starts_battle_def tag_of_def has_sub_def
  by (blast intro: split_on_sublist getindex_in_set)

lemma store_rqid_untracked: "activeBattles h key = None \<Longrightarrow> \<exists>e. store_rqid h key request = Inl e"
  by (auto simp: store_rqid_def and_then_def split: sum.splits)

lemma update_all_untracked:
  "activeBattles h key = None \<Longrightarrow> state (update_all h key ps) = h \<and> sent (update_all h key ps) = []"
  by (cases ps) (simp_all add: returns_def raises_def)

lemma on_request_untracked:
  assumes "activeBattles h key = None"
  shows "state (on_request loads h key m) = h \<and> sent (on_request loads h key m) = []"
proof (cases "and_then (getindex m 2) loads")
  case (Inl e)
  then show ?thesis by (simp add: on_request_def raises_def)
next
  case (Inr request)
  note req = this
  show ?thesis
  proof (cases "py_contains ''rqid'' request")
    case (Inl e)
    with req show ?thesis by (simp add: on_request_def raises_def)
  next
    case (Inr has)
    show ?thesis
    proof (cases has)
      case True
      from store_rqid_untracked[OF assms, of request] obtain e where
        "store_rqid h key request = Inl e" by blast
      with req Inr True show ?thesis by (simp add: on_request_def raises_def)
    next
      case False
      with req Inr show ?thesis
        using update_all_untracked[OF assms]
        by (simp add: on_request_def raises_def split: sum.splits)
    qed
  qed
qed

lemma parse_no_tag:
  assumes "activeBattles h key = None" and "tag_of msg = Inl e"
  shows "state (parse loads h r key msg) = h \<and> sent (parse loads h r key msg) = []"
  using assms by (simp add: parse_def Let_def tag_of_def returns_def raises_def)

lemma parse_untracked_tag:
  assumes "activeBattles h key = None" and "tag_of msg = Inr tag" and "\<not> starts_battle msg"
  shows "parse loads h r key msg =
     (if tag = ''init'' then
        (case getindex (split_on CHR ''|'' msg) 2 of Inl e \<Rightarrow> raises h [] e
         | Inr x \<Rightarrow> returns h [])
      else if tag = ''request'' then on_request loads h key (split_on CHR ''|'' msg)
      else if tag = ''poke'' then on_poke h key (split_on CHR ''|'' msg)
      else if tag = ''player'' then on_player h key (split_on CHR ''|'' msg)
      else if tag = ''teampreview'' then on_teampreview h r key
      else if tag = ''turn'' then on_turn h r key
      else if tag = ''switch'' then on_switch h key (split_on CHR ''|'' msg)
      else if tag = ''win'' \<or> tag = ''tie'' then on_end h key (split_on CHR ''|'' msg)
      else returns h [])"
proof -
  have ne: "msg \<noteq> []" using assms(2) by (auto simp: tag_of_def getindex_def)
  show ?thesis
  proof (cases "tag = ''init''")
    case True
    then show ?thesis
      using assms ne
      by (cases "getindex (split_on CHR ''|'' msg) 2")
         (simp_all add: parse_def Let_def tag_of_def starts_battle_def and_then_def)
  next
    case False
    then show ?thesis
      using assms(1,2) ne by (simp add: parse_def Let_def tag_of_def)
  qed
qed

lemma untracked_branches:
  assumes "activeBattles h key = None"
  shows "on_poke h key m = raises h [] KeyError"
    and "state (on_player h key m) = h \<and> sent (on_player h key m) = [] \<and>
         raised (on_player h key m) \<noteq> None"
    and "on_teampreview h r key = raises h [] KeyError"
    and "on_turn h r key = raises h [] KeyError"
    and "on_switch h key m = raises h [] KeyError"
    and "state (on_end h key m) = h"
  using assms
  by (simp_all add: on_poke_def on_player_def on_teampreview_def on_turn_def on_switch_def
        on_end_def randint_def returns_def raises_def split: sum.splits)

lemmas ex_defs = handler0_def handler1_def handler_none_def battle0_def battle1_def ditto_def
  Battle_def new_player_def

subsection \<open>The claims about the handler\<close>

text \<open>
  C2 (the code departs from the claim). On a tracked session with request id \<open>42\<close> the
  line \<open>|teampreview\<close> makes the handler send exactly one line \<open>/team k|42\<close>, but \<open>k\<close>
  is \<open>randint(0,6)\<close>, whose bounds are both included: when the source draws 6 the line
  is \<open>/team 6|42\<close>, outside the range \<open>0 \<le> k < 6\<close> of the claim.
\<close>

theorem teampreview_can_draw_six:
  "parse loads handler0 6 ''room1'' ''|teampreview'' = returns handler0 [''room1|/team 6|42'']"
proof -
  have "\<not> has_sub ''init'' ''|teampreview''" by code_simp
  moreover have "show_int 6 = ''6''" by code_simp
  ultimately show ?thesis
    by (simp add: parse_def Let_def getindex_def on_teampreview_def randint_def respond_def ex_defs)
qed

text \<open>
  C4 (the code departs from the claim). The move is \<open>moves[randint(0,3)]\<close> whatever the
  length of the move list: for an active Pokemon with the one move \<open>transform\<close> and the
  draw 3, the handler raises \<open>IndexError\<close> and sends nothing, where the claim promises
  \<open>/choose move transform|42\<close>.
\<close>

theorem turn_short_move_list_raises:
  "parse loads handler1 3 ''room1'' ''|turn|1'' = raises handler1 [] IndexError"
proof -
  have "\<not> has_sub ''init'' ''|turn|1''" by code_simp
  then show ?thesis
    by (simp add: parse_def Let_def getindex_def on_turn_def randint_def and_then_def active_of_def
          ex_defs)
qed

text \<open>
  C3, amended. A \<open>win\<close> or \<open>tie\<close> line with a winner field, for a tracked battle key and
  without the substring \<open>init\<close>, makes the handler send the closing remark, chosen by
  whether the winner field is the bot's own name, and then \<open>/leave\<close>; the handler,
  session table included, is left as it was: the session stays tracked.
\<close>

theorem win_tie_keeps_session:
  assumes "activeBattles h key \<noteq> None" and "\<not> has_sub ''init'' msg"
    and "split_on CHR ''|'' msg = f0 # tag # winner # rest"
    and "tag = ''win'' \<or> tag = ''tie''"
  shows "parse loads h r key msg =
           returns h [respond key (remark h winner), respond key ''/leave'']"
proof -
  have ne: "msg \<noteq> []" using assms(3) by auto
  have t: "getindex (f0 # tag # winner # rest) 1 = Inr tag"
          "getindex (f0 # tag # winner # rest) 2 = Inr winner"
    by (simp_all add: getindex_def)
  from assms(4) show ?thesis
  proof
    assume "tag = ''win''"
    then show ?thesis using assms(1,2,3) ne t
      by (simp add: parse_def Let_def on_end_def)
  next
    assume "tag = ''tie''"
    then show ?thesis using assms(1,2,3) ne t
      by (simp add: parse_def Let_def on_end_def)
  qed
qed

theorem win_tie_keeps_session_witness:
  "activeBattles handler0 ''room1'' \<noteq> None \<and> \<not> has_sub ''init'' ''|win|BotName'' \<and>
   split_on CHR ''|'' ''|win|BotName'' = [[], ''win'', ''BotName''] \<and>
   parse loads0 handler0 0 ''room1'' ''|win|BotName'' =
     returns handler0 [''room1|O-oh, I won? Sorry :('', ''room1|/leave'']"
proof -
  have a: "activeBattles handler0 ''room1'' \<noteq> None" by (simp add: handler0_def)
  have i: "\<not> has_sub ''init'' ''|win|BotName''" by code_simp
  have s: "split_on CHR ''|'' ''|win|BotName'' = [] # ''win'' # ''BotName'' # []" by simp
  from win_tie_keeps_session[OF a i s, of loads0 0] a i s show ?thesis
    by (simp add: respond_def remark_def handler0_def)
qed

text \<open>
  The claim as stated fails: after \<open>|win|BotName\<close> the session of \<open>room1\<close> is still in the
  table, and a later \<open>|teampreview\<close> for the same key is answered as for any tracked
  session.
\<close>

theorem win_session_not_removed:
  "activeBattles (state (parse loads0 handler0 0 ''room1'' ''|win|BotName'')) ''room1'' \<noteq> None \<and>
   sent (parse loads0 (state (parse loads0 handler0 0 ''room1'' ''|win|BotName'')) 0 ''room1''
           ''|teampreview'') = [''room1|/team 0|42'']"
proof -
  have i: "\<not> has_sub ''init'' ''|win|BotName''" "\<not> has_sub ''init'' ''|teampreview''"
    by code_simp+
  have s: "show_int 0 = ''0''" by code_simp
  have w: "parse loads0 handler0 0 ''room1'' ''|win|BotName'' =
      returns handler0 [respond ''room1'' (remark handler0 ''BotName''), respond ''room1'' ''/leave'']"
    using i(1) by (simp add: parse_def Let_def getindex_def on_end_def)
  show ?thesis
    unfolding w using i(2) s
    by (simp add: returns_def parse_def Let_def getindex_def on_teampreview_def randint_def
          respond_def ex_defs)
qed

text \<open>
  C8, amended. For a line that is not an \<open>init battle\<close> line and whose battle key has no
  tracked session, the handler (session table included) is unchanged; a line is sent only
  when the tag is \<open>win\<close> or \<open>tie\<close>; and the tags \<open>poke\<close>, \<open>player\<close>, \<open>teampreview\<close>,
  \<open>turn\<close> and \<open>switch\<close> end in a raised exception, not in a logged diagnostic.
\<close>

theorem unknown_session_effects:
  assumes "activeBattles h key = None" and "\<not> starts_battle msg"
  shows "state (parse loads h r key msg) = h \<and>
         (sent (parse loads h r key msg) \<noteq> [] \<longrightarrow>
            tag_of msg = Inr ''win'' \<or> tag_of msg = Inr ''tie'') \<and>
         (tag_of msg \<in> {Inr ''poke'', Inr ''player'', Inr ''teampreview'', Inr ''turn'',
                         Inr ''switch''} \<longrightarrow>
            raised (parse loads h r key msg) \<noteq> None)"
proof (cases "tag_of msg")
  case (Inl e)
  with parse_no_tag[OF assms(1) Inl] show ?thesis by auto
next
  case (Inr tag)
  note p = parse_untracked_tag[OF assms(1) Inr assms(2), of loads r]
  note b = untracked_branches[OF assms(1)]
  note q = on_request_untracked[OF assms(1)]
  have st: "state (parse loads h r key msg) = h"
    unfolding p using b q by (simp add: returns_def raises_def split: sum.splits)
  have se: "sent (parse loads h r key msg) \<noteq> [] \<longrightarrow> tag = ''win'' \<or> tag = ''tie''"
    unfolding p using b q by (simp add: returns_def raises_def split: sum.splits)
  have ra: "tag \<in> {''poke'', ''player'', ''teampreview'', ''turn'', ''switch''} \<longrightarrow>
            raised (parse loads h r key msg) \<noteq> None"
    unfolding p using b by (auto simp: raises_def)
  from st se ra Inr show ?thesis by auto
qed

theorem unknown_session_effects_witness:
  "activeBattles handler_none ''room1'' = None \<and> \<not> starts_battle ''|turn|1'' \<and>
   tag_of ''|turn|1'' = Inr ''turn'' \<and>
   state (parse loads0 handler_none 0 ''room1'' ''|turn|1'') = handler_none \<and>
   sent (parse loads0 handler_none 0 ''room1'' ''|turn|1'') = [] \<and>
   raised (parse loads0 handler_none 0 ''room1'' ''|turn|1'') \<noteq> None"
proof -
  have a: "activeBattles handler_none ''room1'' = None" by (simp add: handler_none_def)
  have t: "tag_of ''|turn|1'' = Inr ''turn''" by (simp add: tag_of_def getindex_def)
  have n: "\<not> starts_battle ''|turn|1''" by (simp add: starts_battle_def t)
  from unknown_session_effects[OF a n, of loads0 0] a n t show ?thesis by auto
qed

text \<open>
  The claim as stated fails: without a session, \<open>|teampreview\<close> raises \<open>KeyError\<close>, and
  a \<open>win\<close> line still sends its two lines.
\<close>

theorem unknown_session_faults:
  "raised (parse loads0 handler_none 0 ''room1'' ''|teampreview'') = Some KeyError \<and>
   sent (parse loads0 handler_none 0 ''room1'' ''|win|Rival'') \<noteq> []"
  by (simp add: parse_def Let_def getindex_def on_teampreview_def on_end_def randint_def
        returns_def raises_def handler_none_def)

text \<open>
  C9. For a battle key that is already in the session table, an \<open>init battle\<close> line
  leaves the handler, hence the table and the state of the session, unchanged and sends
  nothing.
\<close>

theorem reinit_ignored:
  assumes "activeBattles h key \<noteq> None" and "starts_battle msg"
  shows "parse loads h r key msg = returns h []"
  using assms starts_battle_has_init[OF assms(2)] by (simp add: parse_def)

theorem reinit_ignored_witness:
  "activeBattles (state (parse loads0 handler_none 0 ''room1'' ''|init|battle'')) ''room1'' \<noteq> None \<and>
   starts_battle ''|init|battle'' \<and>
   parse loads0 (state (parse loads0 handler_none 0 ''room1'' ''|init|battle'')) 0 ''room1''
       ''|init|battle'' =
     returns (state (parse loads0 handler_none 0 ''room1'' ''|init|battle'')) []"
proof -
  have a: "activeBattles (state (parse loads0 handler_none 0 ''room1'' ''|init|battle'')) ''room1''
           \<noteq> None"
    by (simp add: parse_def Let_def getindex_def and_then_def returns_def handler_none_def)
  have s: "starts_battle ''|init|battle''"
    by (simp add: starts_battle_def tag_of_def getindex_def)
  from reinit_ignored[OF a s, of loads0 0] a s show ?thesis by simp
qed

text \<open>
  C10. For a battle key that is already in the session table, every line whose raw text
  contains the substring \<open>init\<close> anywhere, such as a \<open>win\<close> line that names the player
  Trinity, is dropped: the handler is unchanged and nothing is sent.
\<close>

theorem init_substring_dropped:
  assumes "activeBattles h key \<noteq> None" and "has_sub ''init'' msg"
  shows "parse loads h r key msg = returns h []"
  using assms by (simp add: parse_def)

theorem init_substring_dropped_witness:
  "activeBattles handler1 ''room1'' \<noteq> None \<and> has_sub ''init'' ''|win|Trinity'' \<and>
   parse loads0 handler1 0 ''room1'' ''|win|Trinity'' = returns handler1 []"
proof -
  have a: "activeBattles handler1 ''room1'' \<noteq> None" by (simp add: handler1_def)
  have i: "has_sub ''init'' ''|win|Trinity''" by code_simp
  from init_substring_dropped[OF a i, of loads0 0] a i show ?thesis by simp
qed


end
